theory Spec2Isabelle
  imports Complex_Main
    "HOL-Library.Char_ord"
    "HOL-Library.List_Lexorder"
    "HOL-Library.Product_Lexorder"
    "HOL-Library.Sublist"
begin

section \<open>Python values\<close>

text \<open>
  The program is \<^verbatim>\<open>src/resume_analyzer/app_clean.py\<close>. Python's \<^verbatim>\<open>str\<close> is modelled by
  \<^typ>\<open>string\<close>, a \<^typ>\<open>char\<close> standing for a code point below 256; a Python list of strings
  is a \<^typ>\<open>string list\<close>. Python's \<^verbatim>\<open>float\<close> is idealised as \<^typ>\<open>real\<close>: the
  comparisons of the source are exact on floats, and the bounds proved below are preserved
  by correctly rounded arithmetic, which is monotone and leaves 0, 1 and 100 fixed. An
  exception is a value \<open>Inl e\<close> of the result type.

  The helper functions of the program call the standard library: \<^verbatim>\<open>str.lower\<close>,
  \<^verbatim>\<open>str.split\<close>, \<^verbatim>\<open>re.search\<close> and \<^verbatim>\<open>difflib.get_close_matches\<close>. They are
  modelled here from CPython 3.11, whose \<^verbatim>\<open>difflib.py\<close> is followed function by
  function. The PDF reader, the sentence-embedding model and the Streamlit and matplotlib
  calls are outside the program: the text of the uploaded pages and the similarity
  function are parameters of \<open>main\<close>, and what is displayed is returned as a record.
\<close>

datatype py_error = ZeroDivisionError | ValueError | KeyError

text \<open>Python's true division \<^verbatim>\<open>a / b\<close> of two numbers.\<close>

definition truediv :: "real \<Rightarrow> real \<Rightarrow> py_error + real" where
  "truediv a b = (if b = 0 then Inl ZeroDivisionError else Inr (a / b))"

subsection \<open>Strings\<close>

text \<open>
  The character classes are those of Python on the code points below 256:
  \<^verbatim>\<open>str.isspace\<close> (the separators of \<^verbatim>\<open>str.split()\<close>), the word characters of
  \<^verbatim>\<open>re\<close> (alphanumeric or underscore), and \<^verbatim>\<open>str.lower\<close>.
\<close>

definition code_point :: "char \<Rightarrow> nat" where
  "code_point c = of_char c"

definition isspace :: "char \<Rightarrow> bool" where
  "isspace c = (let n = code_point c in
     (9 \<le> n \<and> n \<le> 13) \<or> (28 \<le> n \<and> n \<le> 32) \<or> n = 133 \<or> n = 160)"

definition isword :: "char \<Rightarrow> bool" where
  "isword c = (let n = code_point c in
     (48 \<le> n \<and> n \<le> 57) \<or> (65 \<le> n \<and> n \<le> 90) \<or> n = 95 \<or> (97 \<le> n \<and> n \<le> 122)
     \<or> n = 170 \<or> n = 178 \<or> n = 179 \<or> n = 181 \<or> n = 185 \<or> n = 186
     \<or> (188 \<le> n \<and> n \<le> 190) \<or> (192 \<le> n \<and> n \<le> 214)
     \<or> (216 \<le> n \<and> n \<le> 246) \<or> (248 \<le> n \<and> n \<le> 255))"

definition lower_char :: "char \<Rightarrow> char" where
  "lower_char c = (let n = code_point c in
     if (65 \<le> n \<and> n \<le> 90) \<or> (192 \<le> n \<and> n \<le> 214) \<or> (216 \<le> n \<and> n \<le> 222)
     then char_of (n + 32) else c)"

definition lower :: "string \<Rightarrow> string" where
  "lower s = map lower_char s"

text \<open>
  \<^verbatim>\<open>text.split()\<close> with no argument: the maximal runs of characters that are not
  whitespace, in order; \<open>cur\<close> is the run being read.
\<close>

fun split_from :: "string \<Rightarrow> string \<Rightarrow> string list" where
  "split_from cur [] = (if cur = [] then [] else [cur])"
| "split_from cur (c # cs) =
     (if isspace c then (if cur = [] then split_from [] cs else cur # split_from [] cs)
      else split_from (cur @ [c]) cs)"

definition split :: "string \<Rightarrow> string list" where
  "split s = split_from [] s"

text \<open>
  \<^verbatim>\<open>re.search(pattern, text)\<close> for the pattern that extract\_items\_from\_text builds: a
  word-boundary assertion, the escaped item, a word-boundary assertion. Escaping makes
  every character of the item match itself. The assertion holds at position \<open>k\<close> when
  exactly one of the characters before and after \<open>k\<close> is a word character, the outside
  of the string counting as not a word character; it looks at the text only, so an item
  that ends with a character such as \<open>+\<close> or \<open>!\<close> matches only where a word character
  follows it.
\<close>

definition word_at :: "string \<Rightarrow> nat \<Rightarrow> bool" where
  "word_at s k = (k < length s \<and> isword (s ! k))"

definition word_boundary :: "string \<Rightarrow> nat \<Rightarrow> bool" where
  "word_boundary s k = ((0 < k \<and> word_at s (k - 1)) \<noteq> word_at s k)"

definition search_bounded :: "string \<Rightarrow> string \<Rightarrow> bool" where
  "search_bounded p text =
     list_ex (\<lambda>i. word_boundary text i \<and> take (length p) (drop i text) = p
                 \<and> word_boundary text (i + length p))
       [0..<Suc (length text)]"

section \<open>difflib\<close>

subsection \<open>SequenceMatcher.find\_longest\_match\<close>

text \<open>
  \<^verbatim>\<open>get_close_matches(word, possibilities, n, cutoff)\<close> compares each possibility
  \<open>x\<close> with \<open>word\<close> through a \<^verbatim>\<open>SequenceMatcher\<close> whose first sequence \<open>a\<close> is \<open>x\<close>
  and whose second sequence \<open>b\<close> is \<open>word\<close>, with no junk function and with
  \<^verbatim>\<open>autojunk\<close> on: when \<open>b\<close> has at least 200 elements, an element that occurs more
  than \<open>len(b) // 100 + 1\<close> times is popular and is removed from the index \<open>b2j\<close>.
  \<open>b2j b elt\<close> is \<^verbatim>\<open>b2j.get(elt, [])\<close>: the positions of \<open>elt\<close> in \<open>b\<close>, increasing.

  \<^verbatim>\<open>
  besti, bestj, bestsize = alo, blo, 0
  j2len = {}
  for i in range(alo, ahi):
      newj2len = {}
      for j in b2j.get(a[i], nothing):
          if j < blo: continue
          if j >= bhi: break
          k = newj2len[j] = j2len.get(j-1, 0) + 1
          if k > bestsize:
              besti, bestj, bestsize = i-k+1, j-k+1, k
      j2len = newj2len
  while besti > alo and bestj > blo and not isbjunk(b[bestj-1]) and a[besti-1] == b[bestj-1]:
      besti, bestj, bestsize = besti-1, bestj-1, bestsize+1
  while besti+bestsize < ahi and bestj+bestsize < bhi and not isbjunk(b[bestj+bestsize]) \
        and a[besti+bestsize] == b[bestj+bestsize]:
      bestsize += 1
  \<close>
  The junk set is empty, so \<^verbatim>\<open>isbjunk\<close> is always false and the two further loops of
  the source, which extend the match over junk, never run. A dictionary is a map; the key
  \<open>j - 1\<close> of \<^verbatim>\<open>j2len.get(j-1, 0)\<close> is -1 when \<open>j\<close> is 0, and never present. The
  indices \<open>i-k+1\<close> and \<open>j-k+1\<close> are not negative (\<open>k\<close> is at most the number of rows
  read), so natural numbers hold them.
\<close>

type_synonym match = "nat \<times> nat \<times> nat"

definition bpopular :: "string \<Rightarrow> char \<Rightarrow> bool" where
  "bpopular b elt = (length b \<ge> 200 \<and> count_list b elt > length b div 100 + 1)"

definition b2j :: "string \<Rightarrow> char \<Rightarrow> nat list" where
  "b2j b elt = (if bpopular b elt then [] else filter (\<lambda>j. b ! j = elt) [0..<length b])"

definition j2lenget :: "(nat \<rightharpoonup> nat) \<Rightarrow> nat \<Rightarrow> nat" where
  "j2lenget j2len j = (if j = 0 then 0 else case j2len (j - 1) of None \<Rightarrow> 0 | Some k \<Rightarrow> k)"

fun inner_loop ::
  "nat \<Rightarrow> nat \<Rightarrow> nat \<Rightarrow> (nat \<rightharpoonup> nat) \<Rightarrow> nat list \<Rightarrow> (nat \<rightharpoonup> nat) \<Rightarrow> match
     \<Rightarrow> (nat \<rightharpoonup> nat) \<times> match" where
  "inner_loop i blo bhi j2len [] newj2len best = (newj2len, best)"
| "inner_loop i blo bhi j2len (j # js) newj2len (besti, bestj, bestsize) =
     (if j < blo then inner_loop i blo bhi j2len js newj2len (besti, bestj, bestsize)
      else if j \<ge> bhi then (newj2len, (besti, bestj, bestsize))
      else let k = j2lenget j2len j + 1 in
        if k > bestsize
        then inner_loop i blo bhi j2len js (newj2len(j \<mapsto> k)) (i + 1 - k, j + 1 - k, k)
        else inner_loop i blo bhi j2len js (newj2len(j \<mapsto> k)) (besti, bestj, bestsize))"

fun outer_loop ::
  "string \<Rightarrow> string \<Rightarrow> nat \<Rightarrow> nat \<Rightarrow> nat list \<Rightarrow> (nat \<rightharpoonup> nat) \<Rightarrow> match \<Rightarrow> match" where
  "outer_loop a b blo bhi [] j2len best = best"
| "outer_loop a b blo bhi (i # rest) j2len best =
     (case inner_loop i blo bhi j2len (b2j b (a ! i)) Map.empty best of
        (newj2len, best') \<Rightarrow> outer_loop a b blo bhi rest newj2len best')"

function extend_left :: "string \<Rightarrow> string \<Rightarrow> nat \<Rightarrow> nat \<Rightarrow> match \<Rightarrow> match" where
  "extend_left a b alo blo (besti, bestj, bestsize) =
     (if besti > alo \<and> bestj > blo \<and> a ! (besti - 1) = b ! (bestj - 1)
      then extend_left a b alo blo (besti - 1, bestj - 1, bestsize + 1)
      else (besti, bestj, bestsize))"
  by pat_completeness auto
termination
  by (relation "measure (\<lambda>(a, b, alo, blo, besti, bestj, bestsize). besti)") auto

function extend_right :: "string \<Rightarrow> string \<Rightarrow> nat \<Rightarrow> nat \<Rightarrow> match \<Rightarrow> match" where
  "extend_right a b ahi bhi (besti, bestj, bestsize) =
     (if besti + bestsize < ahi \<and> bestj + bestsize < bhi
         \<and> a ! (besti + bestsize) = b ! (bestj + bestsize)
      then extend_right a b ahi bhi (besti, bestj, bestsize + 1)
      else (besti, bestj, bestsize))"
  by pat_completeness auto
termination
  by (relation "measure (\<lambda>(a, b, ahi, bhi, besti, bestj, bestsize). ahi - (besti + bestsize))") auto

definition find_longest_match :: "string \<Rightarrow> string \<Rightarrow> nat \<Rightarrow> nat \<Rightarrow> nat \<Rightarrow> nat \<Rightarrow> match" where
  "find_longest_match a b alo ahi blo bhi =
     extend_right a b ahi bhi
       (extend_left a b alo blo
          (outer_loop a b blo bhi [alo..<ahi] Map.empty (alo, blo, 0)))"

text \<open>
  The match that find\_longest\_match returns lies inside the rows it was given. The
  termination of the loop of get\_matching\_blocks rests on this.
\<close>

lemma inner_loop_bounds:
  assumes i: "alo \<le> i" "i < ahi"
    and old: "\<And>j v. j2len j = Some v \<Longrightarrow> v + alo \<le> i"
  shows "(\<And>j v. newj2len j = Some v \<Longrightarrow> v + alo \<le> Suc i) \<Longrightarrow>
         alo \<le> besti \<Longrightarrow> besti + bestsize \<le> max ahi alo \<Longrightarrow>
         inner_loop i blo bhi j2len js newj2len (besti, bestj, bestsize) = (new', (bi', bj', bs')) \<Longrightarrow>
         (\<forall>j v. new' j = Some v \<longrightarrow> v + alo \<le> Suc i) \<and> alo \<le> bi' \<and> bi' + bs' \<le> max ahi alo"
proof (induction js arbitrary: newj2len besti bestj bestsize)
  case Nil
  then show ?case by simp
next
  case (Cons j js)
  note run = Cons.prems(4)
  show ?case
  proof (cases "j < blo")
    case True
    with run have "inner_loop i blo bhi j2len js newj2len (besti, bestj, bestsize) = (new', (bi', bj', bs'))"
      by simp
    from Cons.IH [OF Cons.prems(1) Cons.prems(2) Cons.prems(3) this] show ?thesis .
  next
    case nlo: False
    show ?thesis
    proof (cases "j \<ge> bhi")
      case True
      with nlo run have "new' = newj2len" "bi' = besti" "bs' = bestsize"
        by simp_all
      then show ?thesis
        using Cons.prems(1,2,3) by blast
    next
      case nhi: False
      define k where "k = j2lenget j2len j + 1"
      have "j2lenget j2len j + alo \<le> i"
        using old i(1) by (cases "j2len (j - 1)") (auto simp: j2lenget_def)
      then have kb: "k + alo \<le> Suc i"
        by (simp add: k_def)
      have new: "v + alo \<le> Suc i" if "(newj2len(j \<mapsto> k)) j' = Some v" for j' v
        using that Cons.prems(1) kb by (cases "j' = j") auto
      show ?thesis
      proof (cases "k > bestsize")
        case True
        with nlo nhi run
        have r: "inner_loop i blo bhi j2len js (newj2len(j \<mapsto> k)) (i + 1 - k, j + 1 - k, k) = (new', (bi', bj', bs'))"
          by (simp add: k_def Let_def)
        have b1: "alo \<le> i + 1 - k" using kb by simp
        have b2: "i + 1 - k + k \<le> max ahi alo" using kb i(2) by simp
        from Cons.IH [OF new b1 b2 r] show ?thesis by simp
      next
        case False
        with nlo nhi run
        have r: "inner_loop i blo bhi j2len js (newj2len(j \<mapsto> k)) (besti, bestj, bestsize) = (new', (bi', bj', bs'))"
          by (simp add: k_def Let_def)
        from Cons.IH [OF new Cons.prems(2) Cons.prems(3) r] show ?thesis by simp
      qed
    qed
  qed
qed


lemma outer_loop_bounds:
  "alo \<le> i0 \<Longrightarrow> \<forall>j v. j2len j = Some v \<longrightarrow> v + alo \<le> i0 \<Longrightarrow>
   alo \<le> besti \<Longrightarrow> besti + bestsize \<le> max ahi alo \<Longrightarrow>
   outer_loop a b blo bhi [i0..<ahi] j2len (besti, bestj, bestsize) = (bi', bj', bs') \<Longrightarrow>
   alo \<le> bi' \<and> bi' + bs' \<le> max ahi alo"
proof (induction "ahi - i0" arbitrary: i0 j2len besti bestj bestsize)
  case 0
  then show ?case by simp
next
  case (Suc n)
  from Suc.hyps(2) have lt: "i0 < ahi" and n: "n = ahi - Suc i0"
    by simp_all
  obtain new bi bj bs where
    inner: "inner_loop i0 blo bhi j2len (b2j b (a ! i0)) Map.empty (besti, bestj, bestsize) = (new, (bi, bj, bs))"
    by (metis prod.exhaust)
  have "(\<forall>j v. new j = Some v \<longrightarrow> v + alo \<le> Suc i0) \<and> alo \<le> bi \<and> bi + bs \<le> max ahi alo"
  proof (rule inner_loop_bounds [where j2len = j2len and newj2len = Map.empty, OF Suc.prems(1) lt])
    show "\<And>j v. j2len j = Some v \<Longrightarrow> v + alo \<le> i0"
      using Suc.prems(2) by blast
    show "\<And>j v. Map.empty j = Some v \<Longrightarrow> v + alo \<le> Suc i0"
      by simp
    show "alo \<le> besti" "besti + bestsize \<le> max ahi alo"
      by (rule Suc.prems(3), rule Suc.prems(4))
    show "inner_loop i0 blo bhi j2len (b2j b (a ! i0)) Map.empty (besti, bestj, bestsize) = (new, bi, bj, bs)"
      by (rule inner)
  qed
  then have new: "\<forall>j v. new j = Some v \<longrightarrow> v + alo \<le> Suc i0"
    and bi: "alo \<le> bi" and bs: "bi + bs \<le> max ahi alo"
    by blast+
  have rest: "outer_loop a b blo bhi [Suc i0..<ahi] new (bi, bj, bs) = (bi', bj', bs')"
    using Suc.prems(5) lt inner by (simp add: upt_conv_Cons)
  have le: "alo \<le> Suc i0"
    using Suc.prems(1) by simp
  from Suc.hyps(1) [OF n le new bi bs rest] show ?case .
qed

lemma extend_left_bounds:
  "alo \<le> besti \<Longrightarrow> extend_left a b alo blo (besti, bestj, bestsize) = (bi', bj', bs') \<Longrightarrow>
   alo \<le> bi' \<and> bi' + bs' = besti + bestsize"
proof (induction a b alo blo "(besti, bestj, bestsize)" arbitrary: besti bestj bestsize
    rule: extend_left.induct)
  case (1 a b alo blo besti bestj bestsize)
  show ?case
  proof (cases "besti > alo \<and> bestj > blo \<and> a ! (besti - 1) = b ! (bestj - 1)")
    case True
    then have "extend_left a b alo blo (besti - 1, bestj - 1, bestsize + 1) = (bi', bj', bs')"
      using "1.prems"(2) by (subst (asm) extend_left.simps) simp
    moreover have "alo \<le> besti - 1"
      using True by auto
    ultimately have "alo \<le> bi' \<and> bi' + bs' = besti - 1 + (bestsize + 1)"
      using "1.hyps" [OF True] by blast
    then show ?thesis
      using True by auto
  next
    case False
    then have "(bi', bj', bs') = (besti, bestj, bestsize)"
      using "1.prems"(2) by (subst (asm) extend_left.simps) auto
    then show ?thesis
      using "1.prems"(1) by simp
  qed
qed

lemma extend_right_bounds:
  "besti + bestsize \<le> max ahi alo \<Longrightarrow>
   extend_right a b ahi bhi (besti, bestj, bestsize) = (bi', bj', bs') \<Longrightarrow>
   bi' = besti \<and> bi' + bs' \<le> max ahi alo"
proof (induction a b ahi bhi "(besti, bestj, bestsize)" arbitrary: besti bestj bestsize
    rule: extend_right.induct)
  case (1 a b ahi bhi besti bestj bestsize)
  show ?case
  proof (cases "besti + bestsize < ahi \<and> bestj + bestsize < bhi
         \<and> a ! (besti + bestsize) = b ! (bestj + bestsize)")
    case True
    then have "extend_right a b ahi bhi (besti, bestj, bestsize + 1) = (bi', bj', bs')"
      using "1.prems"(2) by (subst (asm) extend_right.simps) simp
    moreover have "besti + (bestsize + 1) \<le> max ahi alo"
      using True by auto
    ultimately show ?thesis
      using "1.hyps" [OF True] by blast
  next
    case False
    then have "(bi', bj', bs') = (besti, bestj, bestsize)"
      using "1.prems"(2) by (subst (asm) extend_right.simps) auto
    then show ?thesis
      using "1.prems"(1) by simp
  qed
qed

lemma find_longest_match_bounds:
  assumes "find_longest_match a b alo ahi blo bhi = (i, j, k)"
  shows "alo \<le> i \<and> i + k \<le> max ahi alo"
proof -
  obtain i1 j1 k1 where
    o: "outer_loop a b blo bhi [alo..<ahi] Map.empty (alo, blo, 0) = (i1, j1, k1)"
    by (metis prod.exhaust)
  obtain i2 j2 k2 where l: "extend_left a b alo blo (i1, j1, k1) = (i2, j2, k2)"
    by (metis prod.exhaust)
  have r: "extend_right a b ahi bhi (i2, j2, k2) = (i, j, k)"
    using assms o l by (simp add: find_longest_match_def)
  have "alo \<le> i1 \<and> i1 + k1 \<le> max ahi alo"
    by (rule outer_loop_bounds [OF _ _ _ _ o]) simp_all
  with extend_left_bounds [OF _ l] have "alo \<le> i2 \<and> i2 + k2 \<le> max ahi alo"
    by simp
  with extend_right_bounds [where alo = alo, OF _ r] show ?thesis
    by simp
qed

lemma find_longest_match_nonempty:
  assumes "find_longest_match a b alo ahi blo bhi = (i, j, k)" and "k \<noteq> 0"
  shows "alo \<le> i \<and> i + k \<le> ahi"
  using find_longest_match_bounds [OF assms(1)] assms(2) by (auto simp: max_def split: if_splits)

subsection \<open>SequenceMatcher.get\_matching\_blocks and the three ratios\<close>

text \<open>
  \<^verbatim>\<open>
  queue = [(0, la, 0, lb)]
  matching_blocks = []
  while queue:
      alo, ahi, blo, bhi = queue.pop()
      i, j, k = x = self.find_longest_match(alo, ahi, blo, bhi)
      if k:
          matching_blocks.append(x)
          if alo < i and blo < j:
              queue.append((alo, i, blo, j))
          if i+k < ahi and j+k < bhi:
              queue.append((i+k, ahi, j+k, bhi))
  matching_blocks.sort()
  \<close>
  The queue is a stack: the head of the list is the entry that \<^verbatim>\<open>pop()\<close> takes, so the
  entry appended last stands first. The sorted blocks are then merged where adjacent
  (\<open>collapse\<close>), and the sentinel block \<open>(la, lb, 0)\<close> is appended.
\<close>

type_synonym span = "nat \<times> nat \<times> nat \<times> nat"

definition span_weight :: "span \<Rightarrow> nat" where
  "span_weight q = (case q of (alo, ahi, blo, bhi) \<Rightarrow> 2 * (ahi - alo) + 1)"

function matching_loop :: "string \<Rightarrow> string \<Rightarrow> span list \<Rightarrow> match list \<Rightarrow> match list" where
  "matching_loop a b [] matching_blocks = matching_blocks"
| "matching_loop a b ((alo, ahi, blo, bhi) # queue) matching_blocks =
     (case find_longest_match a b alo ahi blo bhi of (i, j, k) \<Rightarrow>
        if k \<noteq> 0 then
          matching_loop a b
            ((if i + k < ahi \<and> j + k < bhi then [(i + k, ahi, j + k, bhi)] else [])
             @ (if alo < i \<and> blo < j then [(alo, i, blo, j)] else [])
             @ queue)
            (matching_blocks @ [(i, j, k)])
        else matching_loop a b queue matching_blocks)"
  by pat_completeness auto
termination
  apply (relation "measure (\<lambda>(a, b, queue, blocks). sum_list (map span_weight queue))")
    apply simp
  subgoal for a b alo ahi blo bhi queue matching_blocks i y j k
    using find_longest_match_nonempty [of a b alo ahi blo bhi i j k]
    by (auto simp: span_weight_def)
  subgoal
    by (simp add: span_weight_def)
  done

text \<open>
  \<^verbatim>\<open>
  i1 = j1 = k1 = 0
  non_adjacent = []
  for i2, j2, k2 in matching_blocks:
      if i1 + k1 == i2 and j1 + k1 == j2:
          k1 += k2
      else:
          if k1: non_adjacent.append((i1, j1, k1))
          i1, j1, k1 = i2, j2, k2
  if k1: non_adjacent.append((i1, j1, k1))
  non_adjacent.append((la, lb, 0))
  \<close>
\<close>

fun collapse :: "match \<Rightarrow> match list \<Rightarrow> match list" where
  "collapse (i1, j1, k1) [] = (if k1 \<noteq> 0 then [(i1, j1, k1)] else [])"
| "collapse (i1, j1, k1) ((i2, j2, k2) # rest) =
     (if i1 + k1 = i2 \<and> j1 + k1 = j2 then collapse (i1, j1, k1 + k2) rest
      else (if k1 \<noteq> 0 then [(i1, j1, k1)] else []) @ collapse (i2, j2, k2) rest)"

definition get_matching_blocks :: "string \<Rightarrow> string \<Rightarrow> match list" where
  "get_matching_blocks a b =
     collapse (0, 0, 0) (sort (matching_loop a b [(0, length a, 0, length b)] []))
     @ [(length a, length b, 0)]"

text \<open>
  \<^verbatim>\<open>_calculate_ratio(matches, length)\<close> is \<open>2.0 * matches / length\<close>, or 1.0 when
  \<open>length\<close> is 0. It is compared with the cutoff 0.8 only; for sequences of fewer than
  \<open>10^15\<close> elements the rounded quotient is at least the float 0.8 exactly when the
  exact quotient is at least 4/5, so the exact quotient stands for it.
\<close>

definition calculate_ratio :: "nat \<Rightarrow> nat \<Rightarrow> real" where
  "calculate_ratio matches len = (if len \<noteq> 0 then 2 * real matches / real len else 1)"

definition ratio :: "string \<Rightarrow> string \<Rightarrow> real" where
  "ratio a b =
     calculate_ratio (sum_list (map (\<lambda>triple. snd (snd triple)) (get_matching_blocks a b)))
       (length a + length b)"

text \<open>
  \<^verbatim>\<open>quick_ratio\<close> counts the elements of \<open>a\<close> that are still available in \<open>b\<close>:
  \<^verbatim>\<open>
  for elt in self.a:
      if availhas(elt): numb = avail[elt]
      else:             numb = fullbcount.get(elt, 0)
      avail[elt] = numb - 1
      if numb > 0: matches = matches + 1
  \<close>
\<close>

fun quick_loop :: "(char \<Rightarrow> int) \<Rightarrow> string \<Rightarrow> (char \<rightharpoonup> int) \<Rightarrow> nat \<Rightarrow> nat" where
  "quick_loop fullbcount [] avail matches = matches"
| "quick_loop fullbcount (elt # rest) avail matches =
     (let numb = (case avail elt of Some n \<Rightarrow> n | None \<Rightarrow> fullbcount elt) in
      quick_loop fullbcount rest (avail(elt \<mapsto> numb - 1))
        (if numb > 0 then matches + 1 else matches))"

definition quick_ratio :: "string \<Rightarrow> string \<Rightarrow> real" where
  "quick_ratio a b =
     calculate_ratio (quick_loop (\<lambda>elt. int (count_list b elt)) a Map.empty 0)
       (length a + length b)"

definition real_quick_ratio :: "string \<Rightarrow> string \<Rightarrow> real" where
  "real_quick_ratio a b = calculate_ratio (min (length a) (length b)) (length a + length b)"

subsection \<open>get\_close\_matches\<close>

text \<open>
  \<^verbatim>\<open>
  if not n > 0: raise ValueError
  if not 0.0 <= cutoff <= 1.0: raise ValueError
  result = []
  s = SequenceMatcher(); s.set_seq2(word)
  for x in possibilities:
      s.set_seq1(x)
      if s.real_quick_ratio() >= cutoff and s.quick_ratio() >= cutoff and s.ratio() >= cutoff:
          result.append((s.ratio(), x))
  result = _nlargest(n, result)
  return [x for score, x in result]
  \<close>
  \<open>scored word cutoff x\<close> is what one turn of the loop appends; \<^verbatim>\<open>and\<close> evaluates its
  right operand only when the left one holds. \<^verbatim>\<open>heapq.nlargest(n, result)\<close> is the first
  \<open>n\<close> entries of the result sorted in decreasing order of the pairs.
\<close>

definition scored :: "string \<Rightarrow> real \<Rightarrow> string \<Rightarrow> (real \<times> string) list" where
  "scored word cutoff x =
     (if real_quick_ratio x word \<ge> cutoff then
        if quick_ratio x word \<ge> cutoff then
          if ratio x word \<ge> cutoff then [(ratio x word, x)] else []
        else []
      else [])"

definition get_close_matches ::
  "string \<Rightarrow> string list \<Rightarrow> int \<Rightarrow> real \<Rightarrow> py_error + string list" where
  "get_close_matches word possibilities n cutoff =
     (if \<not> n > 0 then Inl ValueError
      else if \<not> (0 \<le> cutoff \<and> cutoff \<le> 1) then Inl ValueError
      else let result = concat (map (scored word cutoff) possibilities)
           in Inr (map snd (take (nat n) (rev (sort result)))))"

section \<open>The program\<close>

subsection \<open>extract\_items\_from\_text\<close>

text \<open>
  \<^verbatim>\<open>
  def extract_items_from_text(text, item_list):
      found_items = []
      for item in item_list:
          pattern = word boundary + re.escape(item.lower()) + word boundary
          if re.search(pattern, text):
              found_items.append(item)
          else:
              close_matches = get_close_matches(item.lower(), text.split(), n=1, cutoff=0.8)
              if close_matches:
                  found_items.append(item)
      return found_items
  \<close>
\<close>

fun extract_loop :: "string \<Rightarrow> string list \<Rightarrow> string list \<Rightarrow> py_error + string list" where
  "extract_loop text [] found_items = Inr found_items"
| "extract_loop text (item # rest) found_items =
     (if search_bounded (lower item) text then extract_loop text rest (found_items @ [item])
      else case get_close_matches (lower item) (split text) 1 (8 / 10) of
          Inl e \<Rightarrow> Inl e
        | Inr close_matches \<Rightarrow>
            if close_matches \<noteq> [] then extract_loop text rest (found_items @ [item])
            else extract_loop text rest found_items)"

definition extract_items_from_text :: "string \<Rightarrow> string list \<Rightarrow> py_error + string list" where
  "extract_items_from_text text item_list = extract_loop text item_list []"

subsection \<open>Notions for the statements about the matcher\<close>

text \<open>
  A possibility passes the cutoff when the three tests of get\_close\_matches hold for
  it; an item is reported present when the word-bounded search finds it or some token of
  the text passes the cutoff 0.8 against the lowercased item.
\<close>

definition passes_cutoff :: "string \<Rightarrow> real \<Rightarrow> string \<Rightarrow> bool" where
  "passes_cutoff word cutoff x =
     (real_quick_ratio x word \<ge> cutoff \<and> quick_ratio x word \<ge> cutoff \<and> ratio x word \<ge> cutoff)"

definition reported_present :: "string \<Rightarrow> string \<Rightarrow> bool" where
  "reported_present text item =
     (search_bounded (lower item) text
      \<or> list_ex (passes_cutoff (lower item) (8 / 10)) (split text))"

text \<open>
  The specification of findPresentItems, in its own words: an item is present when it
  appears in the text as a whole word, that is, at a place where no word character stands
  directly before or directly after it, its characters taken literally; or when the
  closest token of the text has similarity ratio at least 0.8 to the lowercased item. The
  result keeps the present items in the order of the candidate list.
\<close>

definition spec_whole_word :: "string \<Rightarrow> string \<Rightarrow> bool" where
  "spec_whole_word p text =
     list_ex (\<lambda>i. take (length p) (drop i text) = p \<and> i + length p \<le> length text
                 \<and> \<not> (0 < i \<and> word_at text (i - 1)) \<and> \<not> word_at text (i + length p))
       [0..<Suc (length text)]"

definition spec_findPresentItems :: "string \<Rightarrow> string list \<Rightarrow> string list" where
  "spec_findPresentItems text candidates =
     filter (\<lambda>c. spec_whole_word (lower c) text
                \<or> list_ex (\<lambda>token. ratio token (lower c) \<ge> 8 / 10) (split text))
       candidates"

subsection \<open>calculate\_match\<close>

text \<open>
  \<^verbatim>\<open>
  def calculate_match(extracted, required):
      matched = set(extracted) & set(required)
      return len(matched)/len(required)*100 if required else 0
  \<close>
  The conditional expression tests \<^verbatim>\<open>required\<close> first, and divides only when the list is
  not empty.
\<close>

definition calculate_match :: "string list \<Rightarrow> string list \<Rightarrow> py_error + real" where
  "calculate_match extracted required =
     (let matched = set extracted \<inter> set required in
      if required \<noteq> [] then
        (case truediv (real (card matched)) (real (length required)) of
           Inl e \<Rightarrow> Inl e
         | Inr q \<Rightarrow> Inr (q * 100))
      else Inr 0)"

subsection \<open>top\_3\_suggestions\<close>

text \<open>
  \<^verbatim>\<open>
  def top_3_suggestions(missing_skills, missing_tools, missing_certs):
      suggestions = missing_skills + missing_tools + missing_certs
      return suggestions[:3] if suggestions else ["No suggestions, resume is strong!"]
  \<close>
\<close>

definition sentinel :: string where
  "sentinel = ''No suggestions, resume is strong!''"

definition top_3_suggestions :: "string list \<Rightarrow> string list \<Rightarrow> string list \<Rightarrow> string list" where
  "top_3_suggestions missing_skills missing_tools missing_certs =
     (let suggestions = missing_skills @ missing_tools @ missing_certs in
      if suggestions \<noteq> [] then take 3 suggestions else [sentinel])"

subsection \<open>The pieces of main: missing items, overall score, verdict\<close>

text \<open>
  \<^verbatim>\<open>missing_skills = [s for s in job_data["skills"] if s not in extracted_skills]\<close>
  and the same for tools and certifications. \<^verbatim>\<open>not in\<close> is membership in a list.
\<close>

definition missing_items :: "string list \<Rightarrow> string list \<Rightarrow> string list" where
  "missing_items found required = filter (\<lambda>s. s \<notin> set found) required"

text \<open>
  \<^verbatim>\<open>overall_score = 0.4*skill_score + 0.2*tool_score + 0.1*cert_score + 0.3*semantic_score\<close>
\<close>

definition overall_score :: "real \<Rightarrow> real \<Rightarrow> real \<Rightarrow> real \<Rightarrow> real" where
  "overall_score skill_score tool_score cert_score semantic_score =
     4 / 10 * skill_score + 2 / 10 * tool_score + 1 / 10 * cert_score + 3 / 10 * semantic_score"

text \<open>
  \<^verbatim>\<open>
  if overall_score >= 80:   st.success("Excellent! ...")
  elif overall_score >= 60: st.warning("Moderate match. ...")
  else:                     st.error("Weak match. ...")
  \<close>
\<close>

datatype verdict = Excellent | Moderate | Weak

definition verdict :: "real \<Rightarrow> verdict" where
  "verdict overall = (if overall \<ge> 80 then Excellent else if overall \<ge> 60 then Moderate else Weak)"

subsection \<open>The role catalog\<close>

text \<open>
  \<^verbatim>\<open>JOB_ROLE_DATA\<close> is a dictionary from a role name to a dictionary with the keys
  \<^verbatim>\<open>"skills"\<close>, \<^verbatim>\<open>"tools"\<close> and \<^verbatim>\<open>"certifications"\<close>, each bound to a list object.
  Python lists are mutable and shared by reference, so the lists of the catalog live in
  a heap and the catalog holds their references: the literal creates 33 list objects,
  three per role, in the order of the source. The inner dictionaries are never assigned
  to, so a record of three references stands for each. A list that the program creates
  while it runs and never shares is an ordinary value.
\<close>

type_synonym ref = nat

type_synonym heap = "ref \<Rightarrow> string list"

record job_data =
  skills :: ref
  tools :: ref
  certifications :: ref

definition JOB_ROLE_DATA :: "(string \<times> job_data) list" where
  "JOB_ROLE_DATA =
     [(''Data Scientist'', \<lparr>skills = 0, tools = 1, certifications = 2\<rparr>),
      (''Web Developer'', \<lparr>skills = 3, tools = 4, certifications = 5\<rparr>),
      (''AI Engineer'', \<lparr>skills = 6, tools = 7, certifications = 8\<rparr>),
      (''ML Engineer'', \<lparr>skills = 9, tools = 10, certifications = 11\<rparr>),
      (''Software Engineer'', \<lparr>skills = 12, tools = 13, certifications = 14\<rparr>),
      (''DevOps Engineer'', \<lparr>skills = 15, tools = 16, certifications = 17\<rparr>),
      (''Cloud Engineer'', \<lparr>skills = 18, tools = 19, certifications = 20\<rparr>),
      (''Cybersecurity Analyst'', \<lparr>skills = 21, tools = 22, certifications = 23\<rparr>),
      (''Business Analyst'', \<lparr>skills = 24, tools = 25, certifications = 26\<rparr>),
      (''Product Manager'', \<lparr>skills = 27, tools = 28, certifications = 29\<rparr>),
      (''QA Engineer'', \<lparr>skills = 30, tools = 31, certifications = 32\<rparr>)]"

definition catalog_lists :: "string list list" where
  "catalog_lists =
     [[''Python'', ''R'', ''SQL'', ''Machine Learning'', ''Deep Learning'', ''Statistics'',
       ''Data Visualization''],
      [''Pandas'', ''NumPy'', ''Scikit-learn'', ''TensorFlow'', ''Matplotlib''],
      [''IBM Data Science Professional Certificate'', ''Google Data Analytics Certificate''],
      [''HTML'', ''CSS'', ''JavaScript'', ''React'', ''Node.js'', ''REST APIs'',
       ''Responsive Design''],
      [''VS Code'', ''Chrome DevTools'', ''Git'', ''Webpack''],
      [''Meta Front-End Developer'', ''freeCodeCamp Responsive Web Design''],
      [''Python'', ''TensorFlow'', ''PyTorch'', ''Computer Vision'', ''NLP'',
       ''Model Deployment''],
      [''TensorFlow'', ''PyTorch'', ''OpenCV'', ''Hugging Face Transformers''],
      [''TensorFlow Developer Certificate'', ''AI For Everyone by Andrew Ng''],
      [''Python'', ''Scikit-learn'', ''Machine Learning'', ''Deep Learning'',
       ''Data Engineering''],
      [''TensorFlow'', ''PyTorch'', ''Keras'', ''Airflow'', ''Docker''],
      [''AWS Machine Learning Specialty'', ''TensorFlow Developer Certificate''],
      [''Java'', ''Python'', ''C++'', ''Algorithms'', ''Data Structures''],
      [''Git'', ''VS Code'', ''Jira'', ''Docker''],
      [''Oracle Java Certification'', ''AWS Certified Developer''],
      [''CI/CD'', ''Automation'', ''Cloud'', ''Docker'', ''Kubernetes''],
      [''Jenkins'', ''Docker'', ''Kubernetes'', ''Terraform'', ''Git''],
      [''AWS DevOps Engineer'', ''Docker Certified Associate''],
      [''AWS'', ''Azure'', ''GCP'', ''Networking'', ''Cloud Architecture''],
      [''Terraform'', ''Ansible'', ''Kubernetes'', ''Docker''],
      [''AWS Solutions Architect'', ''Google Cloud Professional''],
      [''Network Security'', ''Penetration Testing'', ''Incident Response'',
       ''Threat Analysis''],
      [''Wireshark'', ''Nmap'', ''Metasploit'', ''Splunk''],
      [''CEH'', ''CISSP'', ''CompTIA Security+''],
      [''Requirement Analysis'', ''SQL'', ''Data Visualization'', ''Documentation''],
      [''Excel'', ''Power BI'', ''Tableau'', ''Jira''],
      [''CBAP'', ''IIBA Certification''],
      [''Roadmap Planning'', ''Market Research'', ''User Stories'',
       ''Stakeholder Management''],
      [''Jira'', ''Trello'', ''Aha!'', ''Miro''],
      [''Certified Scrum Product Owner'', ''PMP''],
      [''Test Automation'', ''Manual Testing'', ''Selenium'', ''Performance Testing''],
      [''Selenium'', ''Jira'', ''Postman'', ''TestRail''],
      [''ISTQB Foundation'', ''Certified Software Tester'']]"

definition initial_heap :: heap where
  "initial_heap r = (if r < length catalog_lists then catalog_lists ! r else [])"

subsection \<open>main\<close>

text \<open>
  \<^verbatim>\<open>
  def extract_text_from_pdf(uploaded_file):
      text = ""
      with fitz.open(stream=uploaded_file.read(), filetype="pdf") as doc:
          for page in doc:
              text += page.get_text()
      return text.lower()
  \<close>
  The uploaded file is given by the texts of its pages.
\<close>

definition extract_text_from_pdf :: "string list \<Rightarrow> string" where
  "extract_text_from_pdf pages = lower (concat pages)"

text \<open>\<^verbatim>\<open>sep.join(xs)\<close>\<close>

fun join :: "string \<Rightarrow> string list \<Rightarrow> string" where
  "join sep [] = []"
| "join sep [x] = x"
| "join sep (x # y # ys) = x @ sep @ join sep (y # ys)"

text \<open>An exception leaves the function at once: the rest runs on a value only.\<close>

definition on_value :: "py_error + 'a \<Rightarrow> ('a \<Rightarrow> py_error + 'b) \<Rightarrow> py_error + 'b" where
  "on_value r rest = (case r of Inl e \<Rightarrow> Inl e | Inr v \<Rightarrow> rest v)"

text \<open>What one analysis displays.\<close>

record report =
  shown_skill_score :: real
  shown_tool_score :: real
  shown_cert_score :: real
  shown_semantic_score :: real
  shown_overall_score :: real
  shown_missing_skills :: "string list"
  shown_missing_tools :: "string list"
  shown_missing_certs :: "string list"
  shown_suggestions :: "string list"
  shown_verdict :: verdict
  radar_categories :: "string list"
  radar_values :: "nat list"

text \<open>
  \<^verbatim>\<open>
  if uploaded_file and selected_role:
      resume_text = extract_text_from_pdf(uploaded_file)
      job_data = JOB_ROLE_DATA[selected_role]
      extracted_skills = extract_items_from_text(resume_text, job_data["skills"])
      extracted_tools = extract_items_from_text(resume_text, job_data["tools"])
      extracted_certs = extract_items_from_text(resume_text, job_data["certifications"])
      skill_score = calculate_match(extracted_skills, job_data["skills"])
      tool_score = calculate_match(extracted_tools, job_data["tools"])
      cert_score = calculate_match(extracted_certs, job_data["certifications"])
      semantic_score = calculate_semantic_similarity(resume_text,
          " ".join(job_data["skills"] + job_data["tools"] + job_data["certifications"]))
      overall_score = 0.4*skill_score + 0.2*tool_score + 0.1*cert_score + 0.3*semantic_score
      ...
      missing_skills = [s for s in job_data["skills"] if s not in extracted_skills]
      missing_tools = [t for t in job_data["tools"] if t not in extracted_tools]
      missing_certs = [c for c in job_data["certifications"] if c not in extracted_certs]
      ... top_3_suggestions(missing_skills, missing_tools, missing_certs) ...
      ... verdict ...
      categories = job_data["skills"]
      values = [1 if skill in extracted_skills else 0 for skill in categories]
      values += values[:1]
      categories += categories[:1]
  \<close>
  \<open>main\<close> takes the selected role, the uploaded file if there is one, the similarity
  function and the heap, and returns what it displays and the heap it leaves.
  \<^verbatim>\<open>categories = job_data["skills"]\<close> binds \<open>categories\<close> to the list object of the
  catalog, and \<^verbatim>\<open>categories += categories[:1]\<close> on a list is \<^verbatim>\<open>list.__iadd__\<close>: it
  extends that object in place. \<open>values\<close> is a new list, so extending it touches nothing
  else.
\<close>

definition main ::
  "string \<Rightarrow> string list option \<Rightarrow> (string \<Rightarrow> string \<Rightarrow> real) \<Rightarrow> heap
     \<Rightarrow> py_error + (report option \<times> heap)" where
  "main selected_role uploaded_file calculate_semantic_similarity h =
     (case uploaded_file of
        None \<Rightarrow> Inr (None, h)
      | Some pages \<Rightarrow>
          if selected_role = [] then Inr (None, h)
          else
            let resume_text = extract_text_from_pdf pages in
            case map_of JOB_ROLE_DATA selected_role of
              None \<Rightarrow> Inl KeyError
            | Some job \<Rightarrow>
      on_value (extract_items_from_text resume_text (h (skills job))) (\<lambda>extracted_skills.
      on_value (extract_items_from_text resume_text (h (tools job))) (\<lambda>extracted_tools.
      on_value (extract_items_from_text resume_text (h (certifications job))) (\<lambda>extracted_certs.
      on_value (calculate_match extracted_skills (h (skills job))) (\<lambda>skill_score.
      on_value (calculate_match extracted_tools (h (tools job))) (\<lambda>tool_score.
      on_value (calculate_match extracted_certs (h (certifications job))) (\<lambda>cert_score.
        let semantic_score = calculate_semantic_similarity resume_text
              (join '' '' (h (skills job) @ h (tools job) @ h (certifications job)));
            overall = overall_score skill_score tool_score cert_score semantic_score;
            missing_skills = missing_items extracted_skills (h (skills job));
            missing_tools = missing_items extracted_tools (h (tools job));
            missing_certs = missing_items extracted_certs (h (certifications job));
            suggestions = top_3_suggestions missing_skills missing_tools missing_certs;
            categories = skills job;
            values = map (\<lambda>skill. if skill \<in> set extracted_skills then 1 else 0) (h categories);
            values' = values @ take 1 values;
            h' = h(categories := h categories @ take 1 (h categories))
        in Inr (Some \<lparr>shown_skill_score = skill_score, shown_tool_score = tool_score,
                      shown_cert_score = cert_score, shown_semantic_score = semantic_score,
                      shown_overall_score = overall,
                      shown_missing_skills = missing_skills, shown_missing_tools = missing_tools,
                      shown_missing_certs = missing_certs, shown_suggestions = suggestions,
                      shown_verdict = verdict overall,
                      radar_categories = h' categories, radar_values = values'\<rparr>, h'))))))))"

section \<open>Properties of the scorer\<close>

lemma matched_le_required: "card (set extracted \<inter> set required) \<le> length required"
proof -
  have "card (set extracted \<inter> set required) \<le> card (set required)"
    by (rule card_mono) auto
  also have "\<dots> \<le> length required"
    by (rule card_length)
  finally show ?thesis .
qed

lemma calculate_match_value:
  "calculate_match extracted required =
     Inr (if required = [] then 0
          else real (card (set extracted \<inter> set required)) / real (length required) * 100)"
  by (simp add: calculate_match_def truediv_def)

lemma ratio_times_100:
  fixes m n :: nat
  assumes "m \<le> n" and "n \<noteq> 0"
  shows "0 \<le> real m / real n * 100 \<and> real m / real n * 100 \<le> 100"
proof -
  define q where "q = real m / real n"
  have "q \<le> 1"
    unfolding q_def using assms by (simp add: divide_le_eq_1)
  moreover have "0 \<le> q"
    unfolding q_def by simp
  ultimately have "0 \<le> q * 100 \<and> q * 100 \<le> 100"
    by simp
  then show ?thesis
    unfolding q_def .
qed

lemma calculate_match_bounds:
  assumes "calculate_match extracted required = Inr v"
  shows "0 \<le> v \<and> v \<le> 100"
proof (cases "required = []")
  case True
  with assms show ?thesis by (simp add: calculate_match_value)
next
  case False
  have v: "v = real (card (set extracted \<inter> set required)) / real (length required) * 100"
    using assms False by (simp add: calculate_match_value)
  show ?thesis
    unfolding v using matched_le_required [of extracted required] False
    by (intro ratio_times_100) simp_all
qed

text \<open>
  C4. For every found list and every required list the score is the number of distinct
  items common to both, divided by the length of the required list, times 100, when the
  required list is not empty, and 0 when it is empty; the result is always a value, never
  a ZeroDivisionError.
\<close>

theorem calculate_match_formula:
  "calculate_match found required =
     Inr (if required = [] then 0
          else real (card (set found \<inter> set required)) / real (length required) * 100)
   \<and> calculate_match found required \<noteq> Inl ZeroDivisionError
   \<and> calculate_match found [] = Inr 0"
  by (simp add: calculate_match_def truediv_def)

lemma calculate_match_self:
  "calculate_match required required =
     Inr (if required = [] then 0 else real (card (set required)) / real (length required) * 100)"
  by (simp add: calculate_match_value)

lemma self_score_100_iff:
  assumes "required \<noteq> []"
  shows "real (card (set required)) / real (length required) * 100 = 100 \<longleftrightarrow> distinct required"
proof -
  have "real (card (set required)) / real (length required) * 100 = 100
        \<longleftrightarrow> card (set required) = length required"
    using assms by (simp add: field_simps)
  also have "\<dots> \<longleftrightarrow> distinct required"
    using card_distinct distinct_card by blast
  finally show ?thesis .
qed

text \<open>
  C5 as stated fails: the score of a required list against itself counts each distinct
  item once in the numerator and every occurrence in the denominator, so a required list
  that repeats an item scores below 100 against itself.
\<close>

theorem calculate_match_duplicates_counterexample:
  "[''Python'', ''Python''] \<noteq> []
   \<and> calculate_match [''Python'', ''Python''] [''Python'', ''Python''] = Inr 50
   \<and> calculate_match [''Python'', ''Python''] [''Python'', ''Python''] \<noteq> Inr 100"
  by (simp add: calculate_match_def truediv_def)

text \<open>
  C5, amended. For every non-empty required list and every found list the score lies in
  [0,100]; the score of the required list against itself is exactly 100 if and only if
  the required list has no repeated item.
\<close>

theorem calculate_match_range_and_self:
  assumes "required \<noteq> []"
  shows "(\<exists>v. calculate_match found required = Inr v \<and> 0 \<le> v \<and> v \<le> 100)
       \<and> (calculate_match required required = Inr 100 \<longleftrightarrow> distinct required)"
proof
  show "\<exists>v. calculate_match found required = Inr v \<and> 0 \<le> v \<and> v \<le> 100"
    using calculate_match_bounds [of found required] by (simp add: calculate_match_value)
  show "calculate_match required required = Inr 100 \<longleftrightarrow> distinct required"
    using assms self_score_100_iff [OF assms] by (simp add: calculate_match_self)
qed

theorem calculate_match_range_and_self_witness:
  "[''HTML'', ''CSS''] \<noteq> []
   \<and> (\<exists>v. calculate_match [''CSS'', ''Rust'', ''CSS''] [''HTML'', ''CSS''] = Inr v \<and> 0 \<le> v \<and> v \<le> 100)
   \<and> calculate_match [''HTML'', ''CSS''] [''HTML'', ''CSS''] = Inr 100"
  using calculate_match_range_and_self [of "[''HTML'', ''CSS'']" "[''CSS'', ''Rust'', ''CSS'']"]
  by simp

text \<open>
  C10. For every pair of string lists, with duplicates and foreign items allowed in the
  extracted list and no subset precondition, calculate_match returns a value in [0,100]:
  the cardinality of the set intersection never exceeds the length of the required list,
  and on an empty required list the result is 0, with no division.
\<close>

theorem calculate_match_total:
  "(\<exists>v. calculate_match extracted required = Inr v \<and> 0 \<le> v \<and> v \<le> 100)
   \<and> card (set extracted \<inter> set required) \<le> length required
   \<and> calculate_match extracted [] = Inr 0"
  using calculate_match_bounds [of extracted required] matched_le_required [of extracted required]
  by (simp add: calculate_match_value)

section \<open>Overall score and verdict\<close>

text \<open>
  C6. The overall score is 0.4 * skill + 0.2 * tool + 0.1 * cert + 0.3 * semantic, and it
  lies in [0,100] whenever the four percentages do.
\<close>

theorem overall_score_weighted:
  "overall_score skillPct toolPct certPct semanticPct
     = 0.4 * skillPct + 0.2 * toolPct + 0.1 * certPct + 0.3 * semanticPct
   \<and> (0 \<le> skillPct \<and> skillPct \<le> 100 \<and> 0 \<le> toolPct \<and> toolPct \<le> 100
        \<and> 0 \<le> certPct \<and> certPct \<le> 100 \<and> 0 \<le> semanticPct \<and> semanticPct \<le> 100
      \<longrightarrow> 0 \<le> overall_score skillPct toolPct certPct semanticPct
        \<and> overall_score skillPct toolPct certPct semanticPct \<le> 100)"
  unfolding overall_score_def by (intro conjI impI) (simp, linarith, linarith)

theorem overall_score_weighted_witness:
  "overall_score (200 / 7) 0 0 50 = 185 / 7
   \<and> 0 \<le> overall_score (200 / 7) 0 0 50 \<and> overall_score (200 / 7) 0 0 50 \<le> 100"
  using overall_score_weighted [of "200 / 7" 0 0 50] by simp

text \<open>
  C7. The verdict is Excellent exactly from 80 upwards, Moderate exactly on [60,80), and
  Weak exactly below 60; the lower bound of each band belongs to the band: 80.00 is
  Excellent, 79.99 is Moderate, 60.00 is Moderate, 59.99 is Weak.
\<close>

theorem verdict_bands:
  "(verdict x = Excellent \<longleftrightarrow> 80 \<le> x)
   \<and> (verdict x = Moderate \<longleftrightarrow> 60 \<le> x \<and> x < 80)
   \<and> (verdict x = Weak \<longleftrightarrow> x < 60)
   \<and> verdict 80 = Excellent \<and> verdict 79.99 = Moderate
   \<and> verdict 60 = Moderate \<and> verdict 59.99 = Weak"
  by (simp add: verdict_def)

section \<open>The recommender\<close>

lemma set_missing_items: "set (missing_items found required) = set required - set found"
  by (auto simp: missing_items_def)

text \<open>
  C8. When every found item is a required item, the missing items are a subsequence of the
  required list (its order is kept), no item is both found and missing, every required
  item is found or missing, and the required list is an interleaving of its found items,
  in its own order, with the missing items.
\<close>

theorem missing_items_partition:
  assumes "set found \<subseteq> set required"
  shows "subseq (missing_items found required) required
       \<and> set found \<inter> set (missing_items found required) = {}
       \<and> set found \<union> set (missing_items found required) = set required
       \<and> required \<in> shuffles (filter (\<lambda>s. s \<in> set found) required) (missing_items found required)"
proof (intro conjI)
  show "subseq (missing_items found required) required"
    by (simp add: missing_items_def)
  show "set found \<inter> set (missing_items found required) = {}"
    by (auto simp: set_missing_items)
  show "set found \<union> set (missing_items found required) = set required"
    using assms by (auto simp: set_missing_items)
  have "missing_items found required = filter (\<lambda>s. \<not> s \<in> set found) required"
    by (simp add: missing_items_def)
  then show "required \<in> shuffles (filter (\<lambda>s. s \<in> set found) required) (missing_items found required)"
    using partition_in_shuffles [of required "\<lambda>s. s \<in> set found"] by (simp add: o_def)
qed

theorem missing_items_partition_witness:
  "set [''CSS'', ''HTML''] \<subseteq> set [''HTML'', ''React'', ''CSS'', ''Git'']
   \<and> missing_items [''CSS'', ''HTML''] [''HTML'', ''React'', ''CSS'', ''Git''] = [''React'', ''Git'']
   \<and> subseq (missing_items [''CSS'', ''HTML''] [''HTML'', ''React'', ''CSS'', ''Git''])
        [''HTML'', ''React'', ''CSS'', ''Git'']
   \<and> [''HTML'', ''React'', ''CSS'', ''Git'']
        \<in> shuffles [''HTML'', ''CSS''] [''React'', ''Git'']"
  using missing_items_partition [of "[''CSS'', ''HTML'']" "[''HTML'', ''React'', ''CSS'', ''Git'']"]
  by (simp add: missing_items_def)

text \<open>
  C9 as stated fails in one direction of its "if and only if": the sentinel is an
  ordinary string, so a single missing item equal to it gives the one-element sentinel
  list although the three lists are not all empty.
\<close>

theorem top_3_suggestions_sentinel_counterexample:
  "top_3_suggestions [''No suggestions, resume is strong!''] [] [] = [sentinel]
   \<and> \<not> ([''No suggestions, resume is strong!''] = [] \<and> ([]::string list) = [] \<and> ([]::string list) = [])"
  by (simp add: top_3_suggestions_def sentinel_def)

text \<open>
  C9, amended. The result is the concatenation skills, tools, certifications cut to its
  first three entries, except that three empty lists give the one-element sentinel list;
  it never has more than three entries; and unless the concatenation is itself the
  one-element sentinel list, the result is the sentinel list if and only if all three
  lists are empty.
\<close>

theorem top_3_suggestions_result:
  "top_3_suggestions ms mt mc
     = (if ms = [] \<and> mt = [] \<and> mc = [] then [sentinel] else take 3 (ms @ mt @ mc))
   \<and> length (top_3_suggestions ms mt mc) \<le> 3
   \<and> (ms @ mt @ mc \<noteq> [sentinel]
        \<longrightarrow> (top_3_suggestions ms mt mc = [sentinel] \<longleftrightarrow> ms = [] \<and> mt = [] \<and> mc = []))"
proof (intro conjI impI)
  show eq: "top_3_suggestions ms mt mc
     = (if ms = [] \<and> mt = [] \<and> mc = [] then [sentinel] else take 3 (ms @ mt @ mc))"
    by (simp add: top_3_suggestions_def)
  show "length (top_3_suggestions ms mt mc) \<le> 3"
    unfolding top_3_suggestions_def Let_def by (simp del: take_append)
  assume ne: "ms @ mt @ mc \<noteq> [sentinel]"
  have "take 3 xs = [s] \<longleftrightarrow> xs = [s]" for xs :: "string list" and s
    by (cases xs rule: list.exhaust; simp; cases "tl xs"; auto)
  with ne show "top_3_suggestions ms mt mc = [sentinel] \<longleftrightarrow> ms = [] \<and> mt = [] \<and> mc = []"
    unfolding top_3_suggestions_def Let_def by (simp del: take_append)
qed

theorem top_3_suggestions_result_witness:
  "[''JavaScript'', ''React''] @ [''Git'', ''Webpack''] @ [''Meta Front-End Developer''] \<noteq> [sentinel]
   \<and> top_3_suggestions [''JavaScript'', ''React''] [''Git'', ''Webpack''] [''Meta Front-End Developer'']
       = [''JavaScript'', ''React'', ''Git'']
   \<and> top_3_suggestions [''JavaScript'', ''React''] [''Git'', ''Webpack''] [''Meta Front-End Developer'']
       \<noteq> [sentinel]"
  using top_3_suggestions_result [of "[''JavaScript'', ''React'']" "[''Git'', ''Webpack'']" "[''Meta Front-End Developer'']"]
  by simp

section \<open>The item matcher\<close>

lemma isspace_lower_char: "isspace (lower_char c) = isspace c"
proof -
  have "of_char (char_of (of_char c + 32 :: nat)) = ((of_char c + 32) mod 256 :: nat)"
    by (simp add: of_char_of)
  then show ?thesis
    by (auto simp: isspace_def lower_char_def code_point_def Let_def)
qed

lemma list_ex_isspace_lower: "list_ex isspace (lower item) = list_ex isspace item"
  by (simp add: lower_def list_ex_iff isspace_lower_char)

lemma split_from_tokens:
  "t \<in> set (split_from cur s) \<Longrightarrow> \<not> list_ex isspace cur \<Longrightarrow> \<not> list_ex isspace t \<and> t \<noteq> []"
proof (induction s arbitrary: cur)
  case Nil
  then show ?case by (auto split: if_splits)
next
  case (Cons c cs)
  show ?case
  proof (cases "isspace c")
    case True
    with Cons.prems have "t = cur \<and> cur \<noteq> [] \<or> t \<in> set (split_from [] cs)"
      by (auto split: if_splits)
    then show ?thesis
      using Cons.IH [of "[]"] Cons.prems(2) by auto
  next
    case False
    with Cons.prems have "t \<in> set (split_from (cur @ [c]) cs)"
      by simp
    moreover have "\<not> list_ex isspace (cur @ [c])"
      using False Cons.prems(2) by (simp add: list_ex_iff)
    ultimately show ?thesis
      by (rule Cons.IH)
  qed
qed

lemma split_tokens: "t \<in> set (split text) \<Longrightarrow> \<not> list_ex isspace t \<and> t \<noteq> []"
  using split_from_tokens [of t "[]" "text"] by (simp add: split_def list_ex_iff)

lemma scored_nonempty: "scored word cutoff x \<noteq> [] \<longleftrightarrow> passes_cutoff word cutoff x"
  by (simp add: scored_def passes_cutoff_def)

lemma get_close_matches_value:
  assumes "0 < n" and "0 \<le> cutoff" and "cutoff \<le> 1"
  shows "get_close_matches word possibilities n cutoff
     = Inr (map snd (take (nat n) (rev (sort (concat (map (scored word cutoff) possibilities))))))"
  using assms by (simp add: get_close_matches_def)

lemma sort_empty: "sort xs = [] \<longleftrightarrow> xs = []"
  by (metis length_sort length_0_conv)

lemma take_positive_empty: "0 < n \<Longrightarrow> map f (take n (rev (sort xs))) = [] \<longleftrightarrow> xs = []"
  by (cases n) (simp_all add: take_Suc sort_empty)

lemma close_matches_nonempty:
  assumes "0 < n" and "0 \<le> cutoff" and "cutoff \<le> 1"
  shows "\<exists>close_matches. get_close_matches word possibilities n cutoff = Inr close_matches
     \<and> (close_matches \<noteq> [] \<longleftrightarrow> list_ex (passes_cutoff word cutoff) possibilities)"
proof -
  define close_matches where
    "close_matches = map snd (take (nat n) (rev (sort (concat (map (scored word cutoff) possibilities)))))"
  have "get_close_matches word possibilities n cutoff = Inr close_matches"
    unfolding close_matches_def by (rule get_close_matches_value [OF assms])
  moreover have "close_matches \<noteq> [] \<longleftrightarrow> concat (map (scored word cutoff) possibilities) \<noteq> []"
    unfolding close_matches_def using assms(1) by (subst take_positive_empty) simp_all
  moreover have "concat (map (scored word cutoff) possibilities) \<noteq> []
      \<longleftrightarrow> list_ex (passes_cutoff word cutoff) possibilities"
    by (simp add: list_ex_iff scored_nonempty)
  ultimately show ?thesis
    by blast
qed

text \<open>
  What extract\_items\_from\_text computes: it never raises, and it keeps, in order, the
  items that are reported present.
\<close>

lemma extract_loop_filter:
  "extract_loop text item_list found_items
     = Inr (found_items @ filter (reported_present text) item_list)"
proof (induction item_list arbitrary: found_items)
  case Nil
  then show ?case by simp
next
  case (Cons item rest)
  obtain close_matches where
    cm: "get_close_matches (lower item) (split text) 1 (8 / 10) = Inr close_matches"
    and ne: "close_matches \<noteq> [] \<longleftrightarrow> list_ex (passes_cutoff (lower item) (8 / 10)) (split text)"
    using close_matches_nonempty [of 1 "8 / 10" "lower item" "split text"] by auto
  show ?case
  proof (cases "search_bounded (lower item) text")
    case True
    then show ?thesis
      by (simp add: Cons.IH reported_present_def)
  next
    case False
    show ?thesis
    proof (cases "close_matches \<noteq> []")
      case True
      with False cm ne show ?thesis
        by (simp add: Cons.IH reported_present_def)
    next
      case nope: False
      with False cm ne show ?thesis
        by (simp add: Cons.IH reported_present_def)
    qed
  qed
qed

lemma extract_items_filter:
  "extract_items_from_text text item_list = Inr (filter (reported_present text) item_list)"
  by (simp add: extract_items_from_text_def extract_loop_filter)

lemma passes_cutoff_lengths:
  assumes "passes_cutoff word (8 / 10) x"
  shows "2 * max (length x) (length word) \<le> 3 * min (length x) (length word)"
proof (cases "length x + length word = 0")
  case True
  then show ?thesis by simp
next
  case False
  define m where "m = min (length x) (length word)"
  define t where "t = length x + length word"
  from assms have "real_quick_ratio x word \<ge> 8 / 10"
    by (simp add: passes_cutoff_def)
  then have "8 / 10 \<le> 2 * real m / real t"
    using False by (simp add: real_quick_ratio_def calculate_ratio_def m_def t_def)
  moreover have "0 < real t"
    using False unfolding t_def by linarith
  ultimately have "8 * real t \<le> 20 * real m"
    by (simp add: field_simps)
  then have "real (8 * t) \<le> real (20 * m)"
    by simp
  then have "8 * t \<le> 20 * m"
    by (simp only: of_nat_le_iff)
  then show ?thesis
    unfolding m_def t_def by (simp add: min_def max_def split: if_splits)
qed

text \<open>
  C2 as stated fails. The item "VS Code" contains whitespace; the text "vscode" has the
  single token "vscode"; the word-bounded search for "vs code" fails, and the fallback
  accepts the item: the blocks "vs" and "code" match, 2 * 6 / 13 is at least 0.8.
\<close>

theorem multi_word_fuzzy_counterexample:
  "list_ex isspace ''VS Code''
   \<and> \<not> search_bounded (lower ''VS Code'') ''vscode''
   \<and> get_close_matches (lower ''VS Code'') (split ''vscode'') 1 (8 / 10) = Inr [''vscode'']
   \<and> extract_items_from_text ''vscode'' [''VS Code''] = Inr [''VS Code'']"
  by code_simp

text \<open>
  C2, amended. For every text and every item that contains a whitespace character, no
  token of the text equals the lowercased item, so the fallback never accepts the item
  through an identical token; the item is reported present exactly when the word-bounded
  search finds the whole phrase or some single token passes the three ratio tests at 0.8
  against the whole lowercased phrase; and every token that passes has a length within a
  factor 3/2 of the item's length.
\<close>

theorem multi_word_fuzzy:
  assumes "list_ex isspace item"
  shows "lower item \<notin> set (split text)
       \<and> extract_items_from_text text [item]
           = Inr (if search_bounded (lower item) text
                     \<or> list_ex (passes_cutoff (lower item) (8 / 10)) (split text)
                  then [item] else [])
       \<and> \<not> list_ex (\<lambda>t. passes_cutoff (lower item) (8 / 10) t
               \<and> \<not> 2 * max (length t) (length item) \<le> 3 * min (length t) (length item))
             (split text)"
proof (intro conjI)
  show "lower item \<notin> set (split text)"
    using assms split_tokens [of "lower item" "text"] by (auto simp: list_ex_isspace_lower)
  show "extract_items_from_text text [item]
           = Inr (if search_bounded (lower item) text
                     \<or> list_ex (passes_cutoff (lower item) (8 / 10)) (split text)
                  then [item] else [])"
    by (simp add: extract_items_filter reported_present_def)
  show "\<not> list_ex (\<lambda>t. passes_cutoff (lower item) (8 / 10) t
               \<and> \<not> 2 * max (length t) (length item) \<le> 3 * min (length t) (length item))
             (split text)"
    using passes_cutoff_lengths [of "lower item"] by (auto simp: list_ex_iff lower_def)
qed

theorem multi_word_fuzzy_witness:
  "list_ex isspace ''VS Code''
   \<and> ''vs code'' \<notin> set (split ''vscode'')
   \<and> extract_items_from_text ''vscode'' [''VS Code''] = Inr [''VS Code'']"
proof -
  have h: "list_ex isspace ''VS Code''"
    by code_simp
  have l: "lower ''VS Code'' = ''vs code''"
    by code_simp
  have e: "extract_items_from_text ''vscode'' [''VS Code''] = Inr [''VS Code'']"
    by code_simp
  from multi_word_fuzzy [OF h, of "''vscode''"]
  have "lower ''VS Code'' \<notin> set (split ''vscode'')"
    by (rule conjunct1)
  then have "''vs code'' \<notin> set (split ''vscode'')"
    unfolding l .
  with h e show ?thesis
    by (intro conjI)
qed

subsection \<open>The matcher against its specification\<close>

text \<open>
  The result of the program is always a subsequence of the candidate list, and for an
  item that begins and ends with a word character the word-bounded search of the program
  is the whole-word match of the specification.
\<close>

lemma extract_items_subseq:
  "\<exists>found. extract_items_from_text text item_list = Inr found \<and> subseq found item_list"
  by (simp add: extract_items_filter)

lemma occurrence_chars:
  assumes "take (length p) (drop i text) = p" and "p \<noteq> []"
  shows "i + length p \<le> length text" and "text ! i = hd p"
    and "text ! (i + length p - 1) = last p"
proof -
  have "length (take (length p) (drop i text)) = length p"
    using assms(1) by simp
  then have len: "min (length p) (length text - i) = length p"
    by simp
  with assms(2) show le: "i + length p \<le> length text"
    by (cases p) (auto simp: min_def split: if_splits)
  have nth: "p ! k = text ! (i + k)" if "k < length p" for k
  proof -
    have "p ! k = take (length p) (drop i text) ! k"
      using assms(1) by simp
    also have "\<dots> = text ! (i + k)"
      using that le by simp
    finally show ?thesis .
  qed
  from assms(2) have "0 < length p" by simp
  from nth [OF this] show "text ! i = hd p"
    using assms(2) by (simp add: hd_conv_nth)
  have "length p - 1 < length p"
    using assms(2) by simp
  moreover have "i + (length p - 1) = i + length p - 1"
    using \<open>0 < length p\<close> by linarith
  ultimately show "text ! (i + length p - 1) = last p"
    using nth [of "length p - 1"] assms(2) by (simp add: last_conv_nth)
qed

lemma bounded_is_whole_word:
  assumes "p \<noteq> []" and "isword (hd p)" and "isword (last p)"
  shows "search_bounded p text = spec_whole_word p text"
proof -
  have "(word_boundary text i \<and> take (length p) (drop i text) = p \<and> word_boundary text (i + length p))
      = (take (length p) (drop i text) = p \<and> i + length p \<le> length text
         \<and> \<not> (0 < i \<and> word_at text (i - 1)) \<and> \<not> word_at text (i + length p))" for i
  proof (cases "take (length p) (drop i text) = p")
    case False
    then show ?thesis by simp
  next
    case True
    note occ = occurrence_chars [OF True assms(1)]
    have pos: "0 < length p"
      using assms(1) by simp
    have "i < length text" "i + length p - 1 < length text"
      using occ(1) pos by linarith+
    then have first: "word_at text i" and last: "word_at text (i + length p - 1)"
      using occ(2,3) assms(2,3) by (simp_all add: word_at_def)
    have "word_boundary text i = (\<not> (0 < i \<and> word_at text (i - 1)))"
      using first by (auto simp: word_boundary_def)
    moreover have "word_boundary text (i + length p) = (\<not> word_at text (i + length p))"
      using last pos by (auto simp: word_boundary_def)
    ultimately show ?thesis
      using True occ(1) by simp
  qed
  then show ?thesis
    by (simp add: search_bounded_def spec_whole_word_def)
qed

text \<open>
  C3. The claim is that the program returns exactly the candidates that occur as a whole
  word or have a close token. It does not for an item that ends with a character that is
  not a word character, such as the catalog's "CompTIA Security+": after the final "+"
  the program's pattern demands a word boundary, which needs a word character to follow.
  In the text below the item stands as a whole phrase at the end; the search fails, no
  single token is close to the phrase, and the item is dropped, where the specification
  keeps it.
\<close>

theorem extract_items_whole_word_failing:
  "extract_items_from_text ''certifications: ceh, comptia security+''
       [''CEH'', ''CISSP'', ''CompTIA Security+''] = Inr [''CEH'']
   \<and> spec_whole_word (lower ''CompTIA Security+'') ''certifications: ceh, comptia security+''
   \<and> spec_findPresentItems ''certifications: ceh, comptia security+''
       [''CEH'', ''CISSP'', ''CompTIA Security+''] = [''CEH'', ''CompTIA Security+'']"
  by code_simp

text \<open>
  The fuzzy scenario of the specification: "kubernetees" for "Kubernetes" is accepted by
  the fallback although the word-bounded search fails.
\<close>

lemma kubernetes_scenario:
  "extract_items_from_text ''docker and kubernetees'' [''Kubernetes''] = Inr [''Kubernetes'']
   \<and> \<not> search_bounded (lower ''Kubernetes'') ''docker and kubernetees''"
  by code_simp

section \<open>The catalog across one analysis\<close>

text \<open>
  One analysis never raises for a role of the catalog, and the heap it leaves differs
  from the heap it found in one place: the skills list of the selected role has its own
  first item appended. The tools and certifications lists, and every list of the other
  roles, are as before.
\<close>

lemma main_heap:
  assumes "map_of JOB_ROLE_DATA selected_role = Some job" and "selected_role \<noteq> []"
  shows "\<exists>shown. main selected_role (Some pages) similarity h
           = Inr (Some shown, h(skills job := h (skills job) @ take 1 (h (skills job))))"
  using assms
  by (simp add: main_def on_value_def Let_def extract_items_filter calculate_match_value)

lemma main_without_upload: "main selected_role None similarity h = Inr (None, h)"
  by (simp add: main_def)

lemma web_developer: "map_of JOB_ROLE_DATA ''Web Developer'' = Some \<lparr>skills = 3, tools = 4, certifications = 5\<rparr>"
  by (simp add: JOB_ROLE_DATA_def)

lemma web_developer_skills:
  "initial_heap 3 = [''HTML'', ''CSS'', ''JavaScript'', ''React'', ''Node.js'', ''REST APIs'', ''Responsive Design'']"
  by (simp add: initial_heap_def catalog_lists_def)

text \<open>
  C1. The claim is that one complete analysis leaves the skills, tools and certifications
  lists of the selected role as they were. For the role "Web Developer" and a resume
  holding "HTML and CSS", the skills list of the catalog has seven items before the
  analysis and eight after it: "HTML" stands a second time at the end.
\<close>

theorem main_extends_catalog_skills:
  "\<exists>shown h'. main ''Web Developer'' (Some [''HTML and CSS'']) (\<lambda>text1 text2. 50) initial_heap
        = Inr (Some shown, h')
     \<and> map_of JOB_ROLE_DATA ''Web Developer'' = Some \<lparr>skills = 3, tools = 4, certifications = 5\<rparr>
     \<and> initial_heap 3 = [''HTML'', ''CSS'', ''JavaScript'', ''React'', ''Node.js'', ''REST APIs'',
          ''Responsive Design'']
     \<and> h' 3 = [''HTML'', ''CSS'', ''JavaScript'', ''React'', ''Node.js'', ''REST APIs'',
          ''Responsive Design'', ''HTML'']
     \<and> h' 3 \<noteq> initial_heap 3"
proof -
  obtain shown where
    "main ''Web Developer'' (Some [''HTML and CSS'']) (\<lambda>text1 text2. 50) initial_heap
       = Inr (Some shown, initial_heap(3 := initial_heap 3 @ take 1 (initial_heap 3)))"
    using main_heap [OF web_developer, of "[''HTML and CSS'']" "\<lambda>text1 text2. 50" initial_heap]
    by auto
  then show ?thesis
    by (simp add: web_developer web_developer_skills)
qed

text \<open>
  The end-to-end scenario of the specification: skills score 2/7 of 100, tools and
  certifications 0, semantic 50, overall 185/7 (about 26.43), verdict Weak, five missing
  skills, of which the first three are suggested.
\<close>

lemma end_to_end_scenario:
  "case main ''Web Developer'' (Some [''HTML and CSS'']) (\<lambda>text1 text2. 50) initial_heap of
     Inr (Some shown, h') \<Rightarrow>
       shown_skill_score shown = 200 / 7 \<and> shown_tool_score shown = 0
       \<and> shown_cert_score shown = 0 \<and> shown_overall_score shown = 185 / 7
       \<and> shown_verdict shown = Weak
       \<and> shown_missing_skills shown
           = [''JavaScript'', ''React'', ''Node.js'', ''REST APIs'', ''Responsive Design'']
       \<and> shown_suggestions shown = [''JavaScript'', ''React'', ''Node.js'']
       \<and> radar_values shown = [1, 1, 0, 0, 0, 0, 0, 1]
   | _ \<Rightarrow> False"
  by code_simp

end
